theory Spec2Isabelle
  imports Main "HOL-Library.Extended_Nat"
begin

section \<open>RoadLogistics: the road-maintenance scheduler of a colony\<close>

text \<open>
  A shallow embedding of \<^verbatim>\<open>src/logistics/RoadLogistics.ts\<close>. Every method of the class
  becomes a HOL function. The mutable memory the methods can reach (the object's
  \<^verbatim>\<open>_assignedWorkers\<close> table and the tables of the global cache) is a record that is
  passed in and returned; everything the methods only read (the game, the colony, the
  settings) is an environment record.

  Hit points, carried energy and capacities are natural numbers (the game engine only
  produces non-negative integers). Thresholds, repair costs and the remaining energy of
  a manifest are rationals: the arithmetic of the model is exact, where the code computes
  in IEEE doubles and rounds. The two agree wherever the doubles are exact (integer
  costs, the thresholds 0.25 and 0.9 on the hit points of roads); a result that hinges
  on a rounded product, sum or difference is outside the model.
\<close>

subsection \<open>Data model\<close>

record roomPosition =
  pos_x :: int
  pos_y :: int
  roomName :: string

record structureRoad =
  road_id :: string
  pos :: roomPosition
  hits :: nat
  hitsMax :: nat

record room =
  name :: string
  roads :: "structureRoad list"
  isSafe :: bool

text \<open>
  A task as the scheduler sees it: its name, the id of the structure it targets and the
  position of that structure. \<^verbatim>\<open>worker.task\<close> is absent for an idle worker.
\<close>

record task =
  name :: string
  targetRef :: string
  targetPos :: roomPosition

record zerg =
  name :: string
  carryCapacity :: nat
  carry_energy :: nat
  task :: "task option"

text \<open>
  The colony: \<^verbatim>\<open>isRoomActive\<close> is \<^verbatim>\<open>colony.isRoomActive\<close>, \<^verbatim>\<open>roadShouldBeHere\<close> is
  \<^verbatim>\<open>colony.roomPlanner.roadShouldBeHere\<close> and \<^verbatim>\<open>workers\<close> is
  \<^verbatim>\<open>colony.overlords.work.workers\<close>.
\<close>

record colony =
  name :: string
  pos :: roomPosition
  rooms :: "room list"
  isRoomActive :: "string \<Rightarrow> bool"
  roadShouldBeHere :: "roomPosition \<Rightarrow> bool"
  workers :: "zerg list"

record game =
  time :: nat
  rooms :: "string \<rightharpoonup> room"

text \<open>\<^verbatim>\<open>RoadLogistics.settings\<close>, a static object of three numbers.\<close>

record settings =
  allowedPaversPerRoom :: rat
  criticalThreshold :: rat
  repairThreshold :: rat

definition default_settings :: settings where
  "default_settings =
     \<lparr>allowedPaversPerRoom = 1, criticalThreshold = 1 / 4, repairThreshold = 9 / 10\<rparr>"

definition ROAD_CACHE_TIMEOUT :: nat where
  "ROAD_CACHE_TIMEOUT = 25"

text \<open>
  What the methods read and never write. The constants \<^verbatim>\<open>repairTaskName\<close> and
  \<^verbatim>\<open>REPAIR_POWER\<close> and the two range functions of \<^verbatim>\<open>RoomPosition\<close> are declared
  outside \<^verbatim>\<open>RoadLogistics.ts\<close>; they are parameters here. \<^verbatim>\<open>getRangeTo\<close> may be
  infinite (positions in different rooms), so its values are extended naturals.
\<close>

record env =
  Settings :: settings
  Game :: game
  Colony :: colony
  repairTaskName :: string
  REPAIR_POWER :: nat
  getRangeTo :: "roomPosition \<Rightarrow> roomPosition \<Rightarrow> enat"
  getMultiRoomRangeTo :: "roomPosition \<Rightarrow> roomPosition \<Rightarrow> nat"

text \<open>The constructor: \<^verbatim>\<open>this.ref = this.colony.name + ':roadLogistics'\<close>.\<close>

definition ref :: "env \<Rightarrow> string" where
  "ref e = colony.name (Colony e) @ '':roadLogistics''"

text \<open>
  The mutable memory: \<^verbatim>\<open>this._assignedWorkers\<close>, and the two tables of the global
  cache that the class uses, each entry with the tick at which it expires.
\<close>

record state =
  p_assignedWorkers :: "string \<rightharpoonup> string list"
  cache_structures :: "string \<times> string \<rightharpoonup> structureRoad list \<times> nat"
  cache_number :: "string \<times> string \<rightharpoonup> rat \<times> nat"

subsection \<open>The global cache\<close>

text \<open>
  The class reads its road lists and its energy total through \<^verbatim>\<open>$.structures\<close> and
  \<^verbatim>\<open>$.number\<close> of \<^verbatim>\<open>caching/GlobalCache\<close>, whose source is outside
  \<^verbatim>\<open>RoadLogistics.ts\<close>. The spec describes the cache as
  \<^verbatim>\<open>getOrCompute(ownerRef, key, computeFn, ttlCycles)\<close>: a mapping from (owner-id, key) to
  a value and its cycle, where a value that is present and not older than the TTL is
  returned as it is, and otherwise the callback is run and its result stored. The
  callback may itself use the cache, so it takes and returns the state.
\<close>

text \<open>
  Modelled from the spec: what the table of \<^verbatim>\<open>$.structures\<close> holds alive under a key at
  this tick (present and not older than the TTL).
\<close>

definition cached_structures :: "env \<Rightarrow> string \<Rightarrow> state \<Rightarrow> structureRoad list option" where
  "cached_structures e key st =
     (case cache_structures st (ref e, key) of
        Some (v, expiration) \<Rightarrow> if time (Game e) \<le> expiration then Some v else None
      | None \<Rightarrow> None)"

text \<open>
  Modelled from the spec: \<^verbatim>\<open>$.structures(saver, key, callback, timeout)\<close> of
  \<^verbatim>\<open>caching/GlobalCache\<close>, the spec's \<^verbatim>\<open>getOrCompute\<close> for lists of structures.
\<close>

definition structures ::
  "env \<Rightarrow> string \<Rightarrow> (state \<Rightarrow> structureRoad list \<times> state) \<Rightarrow> nat \<Rightarrow> state
     \<Rightarrow> structureRoad list \<times> state" where
  "structures e key callback timeout st =
     (case cached_structures e key st of
        Some v \<Rightarrow> (v, st)
      | None \<Rightarrow>
          (let (v, st') = callback st
           in (v, st'\<lparr>cache_structures :=
                 (cache_structures st')((ref e, key) \<mapsto> (v, time (Game e) + timeout))\<rparr>)))"

text \<open>
  Modelled from the spec: what the table of \<^verbatim>\<open>$.number\<close> holds alive under a key at this
  tick.
\<close>

definition cached_number :: "env \<Rightarrow> string \<Rightarrow> state \<Rightarrow> rat option" where
  "cached_number e key st =
     (case cache_number st (ref e, key) of
        Some (v, expiration) \<Rightarrow> if time (Game e) \<le> expiration then Some v else None
      | None \<Rightarrow> None)"

text \<open>
  Modelled from the spec: \<^verbatim>\<open>$.number(saver, key, callback, timeout)\<close> of
  \<^verbatim>\<open>caching/GlobalCache\<close>, the spec's \<^verbatim>\<open>getOrCompute\<close> for numbers.
\<close>

definition number ::
  "env \<Rightarrow> string \<Rightarrow> (state \<Rightarrow> rat \<times> state) \<Rightarrow> nat \<Rightarrow> state \<Rightarrow> rat \<times> state" where
  "number e key callback timeout st =
     (case cached_number e key st of
        Some v \<Rightarrow> (v, st)
      | None \<Rightarrow>
          (let (v, st') = callback st
           in (v, st'\<lparr>cache_number :=
                 (cache_number st')((ref e, key) \<mapsto> (v, time (Game e) + timeout))\<rparr>)))"

subsection \<open>The assignment tracker\<close>

definition refresh :: "state \<Rightarrow> state" where
  "refresh st = st\<lparr>p_assignedWorkers := Map.empty\<rparr>"

definition assignedWorkers :: "state \<Rightarrow> room \<Rightarrow> string list" where
  "assignedWorkers st room =
     (case p_assignedWorkers st (room.name room) of Some ws \<Rightarrow> ws | None \<Rightarrow> [])"

definition registerWorkerAssignment :: "zerg \<Rightarrow> room \<Rightarrow> state \<Rightarrow> state" where
  "registerWorkerAssignment worker room st =
     (case p_assignedWorkers st (room.name room) of
        Some ws \<Rightarrow>
          if zerg.name worker \<notin> set ws
          then st\<lparr>p_assignedWorkers :=
                 (p_assignedWorkers st)(room.name room \<mapsto> ws @ [zerg.name worker])\<rparr>
          else st
      | None \<Rightarrow>
          st\<lparr>p_assignedWorkers := (p_assignedWorkers st)(room.name room \<mapsto> [zerg.name worker])\<rparr>)"

text \<open>One pass of the loop of \<^verbatim>\<open>init\<close>, for one worker.\<close>

definition init_worker :: "env \<Rightarrow> zerg \<Rightarrow> state \<Rightarrow> state" where
  "init_worker e worker st =
     (case task worker of
        Some t \<Rightarrow>
          if task.name t = repairTaskName e then
            (let roomName = roomName (targetPos t);
                 ws = (case p_assignedWorkers st roomName of Some ws \<Rightarrow> ws | None \<Rightarrow> [])
             in st\<lparr>p_assignedWorkers :=
                    (p_assignedWorkers st)(roomName \<mapsto> ws @ [zerg.name worker])\<rparr>)
          else st
      | None \<Rightarrow> st)"

definition init :: "env \<Rightarrow> state \<Rightarrow> state" where
  "init e st = fold (init_worker e) (workers (Colony e)) st"

subsection \<open>The road health classifier\<close>

definition criticalRoads :: "env \<Rightarrow> room \<Rightarrow> state \<Rightarrow> structureRoad list \<times> state" where
  "criticalRoads e room st =
     structures e (''criticalRoads:'' @ room.name room)
       (\<lambda>st. (sort_key (\<lambda>road. getMultiRoomRangeTo e (structureRoad.pos road) (colony.pos (Colony e)))
                (filter (\<lambda>road. of_nat (hits road)
                                   < of_nat (hitsMax road) * criticalThreshold (Settings e)
                                 \<and> roadShouldBeHere (Colony e) (structureRoad.pos road))
                   (roads room)), st))
       ROAD_CACHE_TIMEOUT st"

definition repairableRoads :: "env \<Rightarrow> room \<Rightarrow> state \<Rightarrow> structureRoad list \<times> state" where
  "repairableRoads e room st =
     structures e (''repairableRoads:'' @ room.name room)
       (\<lambda>st. (sort_key (\<lambda>road. getMultiRoomRangeTo e (structureRoad.pos road) (colony.pos (Colony e)))
                (filter (\<lambda>road. of_nat (hits road)
                                   < of_nat (hitsMax road) * repairThreshold (Settings e)
                                 \<and> roadShouldBeHere (Colony e) (structureRoad.pos road))
                   (roads room)), st))
       ROAD_CACHE_TIMEOUT st"

text \<open>The energy that repairing one road takes: \<^verbatim>\<open>(road.hitsMax - road.hits) / REPAIR_POWER\<close>.\<close>

definition repairCost :: "env \<Rightarrow> structureRoad \<Rightarrow> rat" where
  "repairCost e road = (of_nat (hitsMax road) - of_nat (hits road)) / of_nat (REPAIR_POWER e)"

definition energyToRepave :: "env \<Rightarrow> room \<Rightarrow> state \<Rightarrow> rat \<times> state" where
  "energyToRepave e room st =
     number e (''energyToRepave:'' @ room.name room)
       (\<lambda>st. (let (rs, st') = repairableRoads e room st
              in (sum_list (map (repairCost e) rs), st')))
       ROAD_CACHE_TIMEOUT st"

subsection \<open>The repave decision engine\<close>

definition workerShouldRepaveRoom :: "env \<Rightarrow> zerg \<Rightarrow> room \<Rightarrow> state \<Rightarrow> bool \<times> state" where
  "workerShouldRepaveRoom e worker room st =
     (let otherAssignedWorkers =
            filter (\<lambda>name. name \<noteq> zerg.name worker) (assignedWorkers st room)
      in if of_nat (length otherAssignedWorkers) < allowedPaversPerRoom (Settings e) then
           if zerg.name worker \<in> set (assignedWorkers st room) then
             (let (rs, st') = repairableRoads e room st in (length rs > 0, st'))
           else
             (let (cs, st') = criticalRoads e room st
              in if length cs > 0 then (True, st')
                 else (let (en, st'') = energyToRepave e room st'
                       in (en \<ge> of_nat (carryCapacity worker), st'')))
         else (False, st))"

text \<open>
  The loop \<^verbatim>\<open>for (const room of this.colony.rooms)\<close> of \<^verbatim>\<open>workerShouldRepave\<close>; falling
  off the end of the method returns \<^verbatim>\<open>undefined\<close>.
\<close>

fun scanRooms :: "env \<Rightarrow> zerg \<Rightarrow> room list \<Rightarrow> state \<Rightarrow> room option \<times> state" where
  "scanRooms e worker [] st = (None, st)"
| "scanRooms e worker (room # rest) st =
     (if isRoomActive (Colony e) (room.name room) \<and> isSafe room then
        (let (b, st') = workerShouldRepaveRoom e worker room st
         in if b then (Some room, st') else scanRooms e worker rest st')
      else scanRooms e worker rest st)"

definition workerShouldRepave :: "env \<Rightarrow> zerg \<Rightarrow> state \<Rightarrow> room option \<times> state" where
  "workerShouldRepave e worker st =
     (case task worker of
        Some t \<Rightarrow>
          if task.name t = repairTaskName e then
            (case game.rooms (Game e) (roomName (targetPos t)) of
               Some room \<Rightarrow>
                 if zerg.name worker \<in> set (assignedWorkers st room) then
                   (let (b, st') = workerShouldRepaveRoom e worker room st
                    in if b then (Some room, st')
                       else scanRooms e worker (colony.rooms (Colony e)) st')
                 else scanRooms e worker (colony.rooms (Colony e)) st
             | None \<Rightarrow> scanRooms e worker (colony.rooms (Colony e)) st)
          else scanRooms e worker (colony.rooms (Colony e)) st
      | None \<Rightarrow> scanRooms e worker (colony.rooms (Colony e)) st)"

subsection \<open>The manifest builder\<close>

text \<open>
  Modelled from the spec: \<^verbatim>\<open>Tasks.repair\<close> of \<^verbatim>\<open>tasks/Tasks\<close>, whose source is outside
  \<^verbatim>\<open>RoadLogistics.ts\<close>. The spec describes it as \<^verbatim>\<open>makeRepairTask(structure)\<close>: a repair
  action that targets the structure.
\<close>

definition Tasks_repair :: "env \<Rightarrow> structureRoad \<Rightarrow> task" where
  "Tasks_repair e target =
     \<lparr>task.name = repairTaskName e, targetRef = road_id target,
      targetPos = structureRoad.pos target\<rparr>"

text \<open>
  Modelled from the spec: \<^verbatim>\<open>Tasks.chain\<close> of \<^verbatim>\<open>tasks/Tasks\<close>, whose source is outside
  \<^verbatim>\<open>RoadLogistics.ts\<close>. The spec describes it as \<^verbatim>\<open>chainTasks(sequence of Task)\<close>, where
  an empty chain yields an absent result. A chain is the ordered sequence of its actions.
\<close>

definition Tasks_chain :: "task list \<Rightarrow> task list option" where
  "Tasks_chain tasks = (if tasks = [] then None else Some tasks)"

text \<open>
  The loop \<^verbatim>\<open>while (true)\<close> of \<^verbatim>\<open>buildPavingManifest\<close>, over its local variables
  \<^verbatim>\<open>energy\<close>, \<^verbatim>\<open>targetRefs\<close>, \<^verbatim>\<open>tasks\<close> and \<^verbatim>\<open>previousPos\<close>.
\<close>

function pavingLoop ::
  "env \<Rightarrow> room \<Rightarrow> rat \<Rightarrow> (string \<rightharpoonup> bool) \<Rightarrow> task list \<Rightarrow> roomPosition option \<Rightarrow> state
     \<Rightarrow> task list \<times> state" where
  "pavingLoop e room energy targetRefs tasks previousPos st =
     (if energy \<le> 0 then (tasks, st)
      else
        (let (rs, st') = repairableRoads e room st;
             target =
               (case previousPos of
                  Some p \<Rightarrow>
                    find (\<lambda>road. hits road < hitsMax road \<and> targetRefs (road_id road) \<noteq> Some True
                                  \<and> getRangeTo e (structureRoad.pos road) p \<le> 1) rs
                | None \<Rightarrow>
                    find (\<lambda>road. hits road < hitsMax road \<and> targetRefs (road_id road) \<noteq> Some True)
                      rs)
         in case target of
              Some t \<Rightarrow>
                pavingLoop e room (energy - repairCost e t) (targetRefs(road_id t \<mapsto> True))
                  (tasks @ [Tasks_repair e t]) (Some (structureRoad.pos t)) st'
            | None \<Rightarrow> (tasks, st')))"
  by pat_completeness auto

termination
proof (relation "measure (\<lambda>(e, room, energy, targetRefs, tasks, previousPos, st).
         length (filter (\<lambda>road. targetRefs (road_id road) \<noteq> Some True)
                   (fst (repairableRoads e room st))))", goal_cases)
  case 1
  show ?case by simp
next
  case (2 e room energy targetRefs tasks previousPos st x rs st' target t)
  let ?P = "\<lambda>road. targetRefs (road_id road) \<noteq> Some True"
  let ?P' = "\<lambda>road. (targetRefs(road_id t \<mapsto> True)) (road_id road) \<noteq> Some True"
  from 2 have call: "repairableRoads e room st = (rs, st')"
    by simp
  then have again: "fst (repairableRoads e room st') = rs"
    by (auto simp: repairableRoads_def structures_def cached_structures_def
          split: option.splits if_splits)
  from 2 have "t \<in> set rs \<and> ?P t"
    by (auto simp: find_Some_iff2 split: option.splits)
  then have "t \<in> set (filter ?P rs)" and "\<not> ?P' t"
    by simp_all
  then have "length (filter ?P' (filter ?P rs)) < length (filter ?P rs)"
    by (rule length_filter_less)
  moreover have "filter ?P' (filter ?P rs) = filter ?P' rs"
    by (auto intro: filter_cong)
  ultimately show ?case
    using call again by simp
qed

declare pavingLoop.simps [simp del]

definition buildPavingManifest :: "env \<Rightarrow> zerg \<Rightarrow> room \<Rightarrow> state \<Rightarrow> task list option \<times> state" where
  "buildPavingManifest e worker room st =
     (let (tasks, st') = pavingLoop e room (of_nat (carry_energy worker)) Map.empty [] None st
      in (Tasks_chain tasks, st'))"

subsection \<open>Predicates of the properties\<close>

text \<open>
  A chain is contiguous when every action after the first targets a position within
  range 1 of the position targeted just before it.
\<close>

fun contiguous :: "env \<Rightarrow> task list \<Rightarrow> bool" where
  "contiguous e (a # b # ts) =
     (getRangeTo e (targetPos b) (targetPos a) \<le> 1 \<and> contiguous e (b # ts))"
| "contiguous e ts = True"

text \<open>
  The operations that change the registry, and a run of them in sequence, as the driver
  of the scheduler issues them.
\<close>

datatype op = Refresh | Init | Register zerg room

fun apply_op :: "env \<Rightarrow> op \<Rightarrow> state \<Rightarrow> state" where
  "apply_op e Refresh st = refresh st"
| "apply_op e Init st = init e st"
| "apply_op e (Register worker room) st = registerWorkerAssignment worker room st"

definition run :: "env \<Rightarrow> op list \<Rightarrow> state \<Rightarrow> state" where
  "run e ops st = fold (apply_op e) ops st"

text \<open>
  \<open>listed st region w\<close>: the worker id is in the region's list. \<open>singleBooked st\<close>: every
  worker id is in at most one region's list.
\<close>

definition listed :: "state \<Rightarrow> string \<Rightarrow> string \<Rightarrow> bool" where
  "listed st region w =
     (case p_assignedWorkers st region of Some ws \<Rightarrow> w \<in> set ws | None \<Rightarrow> False)"

definition singleBooked :: "state \<Rightarrow> bool" where
  "singleBooked st \<longleftrightarrow> (\<forall>w r r'. listed st r w \<and> listed st r' w \<longrightarrow> r = r')"

text \<open>
  What the driver has to respect for the registry to stay single-booked, since the class
  itself never looks across regions: a worker is registered for a region only while no
  other region lists it; \<^verbatim>\<open>init\<close> runs only while no other region lists a worker that is
  in the middle of a repair task, the names of the workers being pairwise distinct.
\<close>

fun admissible :: "env \<Rightarrow> state \<Rightarrow> op \<Rightarrow> bool" where
  "admissible e st Refresh = True"
| "admissible e st Init =
     (distinct (map zerg.name (workers (Colony e)))
      \<and> (\<forall>worker \<in> set (workers (Colony e)). \<forall>t r'.
            task worker = Some t \<and> task.name t = repairTaskName e
              \<and> listed st r' (zerg.name worker)
            \<longrightarrow> r' = roomName (targetPos t)))"
| "admissible e st (Register worker room) =
     (\<forall>r'. listed st r' (zerg.name worker) \<longrightarrow> r' = room.name room)"

fun admissible_run :: "env \<Rightarrow> op list \<Rightarrow> state \<Rightarrow> bool" where
  "admissible_run e [] st = True"
| "admissible_run e (op # ops) st =
     (admissible e st op \<and> admissible_run e ops (apply_op e op st))"

text \<open>
  \<open>visible e room\<close>: the room is the object that \<^verbatim>\<open>Game.rooms\<close> shows under its own name.
  \<open>agree e st st'\<close>: the two memories hold the same registry and answer the three
  classifier queries alike for every visible room.
\<close>

definition visible :: "env \<Rightarrow> room \<Rightarrow> bool" where
  "visible e room \<longleftrightarrow> game.rooms (Game e) (room.name room) = Some room"

definition agree :: "env \<Rightarrow> state \<Rightarrow> state \<Rightarrow> bool" where
  "agree e st st' \<longleftrightarrow>
     p_assignedWorkers st' = p_assignedWorkers st
     \<and> (\<forall>room. visible e room \<longrightarrow>
           fst (criticalRoads e room st') = fst (criticalRoads e room st)
           \<and> fst (repairableRoads e room st') = fst (repairableRoads e room st)
           \<and> fst (energyToRepave e room st') = fst (energyToRepave e room st))"

subsection \<open>A small colony, for evaluating the model\<close>

text \<open>
  One room with three damaged roads on a diagonal, listed out of order, behind a colony
  anchored at the origin. The range functions of this environment are the Chebyshev
  distance of the game (infinite between rooms).
\<close>

definition ex_pos :: "string \<Rightarrow> int \<Rightarrow> int \<Rightarrow> roomPosition" where
  "ex_pos r x y = \<lparr>pos_x = x, pos_y = y, roomName = r\<rparr>"

definition ex_multi :: "roomPosition \<Rightarrow> roomPosition \<Rightarrow> nat" where
  "ex_multi a b = nat (max \<bar>pos_x a - pos_x b\<bar> \<bar>pos_y a - pos_y b\<bar>)"

definition ex_range :: "roomPosition \<Rightarrow> roomPosition \<Rightarrow> enat" where
  "ex_range a b = (if roomName a = roomName b then enat (ex_multi a b) else \<infinity>)"

definition ex_road1 :: structureRoad where
  "ex_road1 = \<lparr>road_id = ''r1'', pos = ex_pos ''W1N1'' 1 1, hits = 4000, hitsMax = 5000\<rparr>"

definition ex_road2 :: structureRoad where
  "ex_road2 = \<lparr>road_id = ''r2'', pos = ex_pos ''W1N1'' 2 2, hits = 4000, hitsMax = 5000\<rparr>"

definition ex_road3 :: structureRoad where
  "ex_road3 = \<lparr>road_id = ''r3'', pos = ex_pos ''W1N1'' 3 3, hits = 4000, hitsMax = 5000\<rparr>"

definition ex_room :: room where
  "ex_room = \<lparr>room.name = ''W1N1'', roads = [ex_road3, ex_road1, ex_road2], isSafe = True\<rparr>"

text \<open>A second room whose only road is intact.\<close>

definition ex_road5 :: structureRoad where
  "ex_road5 = \<lparr>road_id = ''r5'', pos = ex_pos ''W2N1'' 7 7, hits = 5000, hitsMax = 5000\<rparr>"

definition ex_far :: room where
  "ex_far = \<lparr>room.name = ''W2N1'', roads = [ex_road5], isSafe = True\<rparr>"

text \<open>An idle worker, and a worker in the middle of a repair task in the second room.\<close>

definition ex_worker :: zerg where
  "ex_worker = \<lparr>zerg.name = ''W1'', carryCapacity = 50, carry_energy = 25, task = None\<rparr>"

definition ex_repairer :: zerg where
  "ex_repairer =
     \<lparr>zerg.name = ''W2'', carryCapacity = 50, carry_energy = 10,
      task = Some \<lparr>task.name = ''repair'', targetRef = ''r5'',
                   targetPos = ex_pos ''W2N1'' 7 7\<rparr>\<rparr>"

definition ex_colony :: colony where
  "ex_colony =
     \<lparr>colony.name = ''W1N1'', pos = ex_pos ''W1N1'' 0 0, rooms = [ex_room, ex_far],
      isRoomActive = (\<lambda>_. True), roadShouldBeHere = (\<lambda>_. True),
      workers = [ex_worker, ex_repairer]\<rparr>"

definition ex_game :: game where
  "ex_game = \<lparr>time = 100, game.rooms = [''W1N1'' \<mapsto> ex_room, ''W2N1'' \<mapsto> ex_far]\<rparr>"

definition ex_env :: env where
  "ex_env =
     \<lparr>Settings = default_settings, Game = ex_game, Colony = ex_colony,
      repairTaskName = ''repair'', REPAIR_POWER = 100,
      getRangeTo = ex_range, getMultiRoomRangeTo = ex_multi\<rparr>"

definition ex_state :: state where
  "ex_state = \<lparr>p_assignedWorkers = Map.empty, cache_structures = Map.empty,
                cache_number = Map.empty\<rparr>"

text \<open>The same memory with another worker already booked in the room.\<close>

definition ex_booked :: state where
  "ex_booked = ex_state\<lparr>p_assignedWorkers := [''W1N1'' \<mapsto> [''W0'']]\<rparr>"

text \<open>A worker whose repair task points into a room the game does not show.\<close>

definition ex_lost :: zerg where
  "ex_lost =
     \<lparr>zerg.name = ''W3'', carryCapacity = 50, carry_energy = 50,
      task = Some \<lparr>task.name = ''repair'', targetRef = ''r9'',
                   targetPos = ex_pos ''W9N9'' 5 5\<rparr>\<rparr>"

text \<open>A room with one road worn down to a fifth of its hit points and one lightly worn.\<close>

definition ex_road4 :: structureRoad where
  "ex_road4 = \<lparr>road_id = ''r4'', pos = ex_pos ''W1N1'' 4 4, hits = 1000, hitsMax = 5000\<rparr>"

definition ex_ruin :: room where
  "ex_ruin = \<lparr>room.name = ''W1N1'', roads = [ex_road1, ex_road4], isSafe = True\<rparr>"

text \<open>The memory once the worker in the second room has been entered by \<^verbatim>\<open>init\<close>.\<close>

definition ex_committed :: state where
  "ex_committed = ex_state\<lparr>p_assignedWorkers := [''W2N1'' \<mapsto> [''W2'']]\<rparr>"

section \<open>Properties\<close>

lemmas ex_defs = ex_env_def ex_state_def ex_room_def ex_road1_def ex_road2_def ex_road3_def
  ex_colony_def ex_game_def ex_pos_def ex_multi_def ex_range_def ex_worker_def
  default_settings_def

subsection \<open>The queries leave the registry alone\<close>

lemma structures_registry:
  assumes "\<And>s. p_assignedWorkers (snd (callback s)) = p_assignedWorkers s"
  shows "p_assignedWorkers (snd (structures e key callback timeout st)) = p_assignedWorkers st"
  using assms [of st]
  by (simp add: structures_def split_beta split: option.splits)

lemma number_registry:
  assumes "\<And>s. p_assignedWorkers (snd (callback s)) = p_assignedWorkers s"
  shows "p_assignedWorkers (snd (number e key callback timeout st)) = p_assignedWorkers st"
  using assms [of st]
  by (simp add: number_def split_beta split: option.splits)

lemma criticalRoads_registry:
  "p_assignedWorkers (snd (criticalRoads e room st)) = p_assignedWorkers st"
  unfolding criticalRoads_def by (rule structures_registry) simp

lemma repairableRoads_registry:
  "p_assignedWorkers (snd (repairableRoads e room st)) = p_assignedWorkers st"
  unfolding repairableRoads_def by (rule structures_registry) simp

lemma energyToRepave_registry:
  "p_assignedWorkers (snd (energyToRepave e room st)) = p_assignedWorkers st"
  unfolding energyToRepave_def
  by (rule number_registry) (simp add: repairableRoads_registry split_beta)

lemma workerShouldRepaveRoom_registry:
  "p_assignedWorkers (snd (workerShouldRepaveRoom e worker room st)) = p_assignedWorkers st"
  by (simp add: workerShouldRepaveRoom_def Let_def split_beta
      criticalRoads_registry repairableRoads_registry energyToRepave_registry)

lemma scanRooms_registry:
  "p_assignedWorkers (snd (scanRooms e worker rs st)) = p_assignedWorkers st"
proof (induction rs arbitrary: st)
  case Nil
  show ?case by simp
next
  case (Cons room rest)
  obtain b st' where call: "workerShouldRepaveRoom e worker room st = (b, st')"
    by (cases "workerShouldRepaveRoom e worker room st")
  then have "p_assignedWorkers st' = p_assignedWorkers st"
    using workerShouldRepaveRoom_registry [of e worker room st] by simp
  then show ?case
    using call Cons.IH [of st] Cons.IH [of st'] by simp
qed

lemma workerShouldRepave_registry:
  "p_assignedWorkers (snd (workerShouldRepave e worker st)) = p_assignedWorkers st"
proof -
  let ?scan = "scanRooms e worker (colony.rooms (Colony e))"
  have scan: "\<And>s. p_assignedWorkers s = p_assignedWorkers st
                \<Longrightarrow> p_assignedWorkers (snd (?scan s)) = p_assignedWorkers st"
    by (simp add: scanRooms_registry)
  have room: "p_assignedWorkers (snd (let (b, st') = workerShouldRepaveRoom e worker room st
                 in if b then (Some room, st') else ?scan st')) = p_assignedWorkers st" for room
    using workerShouldRepaveRoom_registry [of e worker room st]
    by (cases "workerShouldRepaveRoom e worker room st") (simp add: scan)
  show ?thesis
    unfolding workerShouldRepave_def
    using room scan [of st] by (simp split: option.splits)
qed

text \<open>
  C10: \<^verbatim>\<open>workerShouldRepaveRoom\<close> and \<^verbatim>\<open>workerShouldRepave\<close> never modify the assignment
  registry: whatever the worker, the room and the memory they start from, the table
  \<^verbatim>\<open>_assignedWorkers\<close> is the same after the call, so \<^verbatim>\<open>assignedWorkers(r)\<close> returns the
  same sequence for every region before and after. (They do fill the cache.)
\<close>

theorem queries_leave_registry:
  "p_assignedWorkers (snd (workerShouldRepaveRoom e worker room st)) = p_assignedWorkers st
   \<and> p_assignedWorkers (snd (workerShouldRepave e worker st)) = p_assignedWorkers st
   \<and> (\<forall>r. assignedWorkers (snd (workerShouldRepaveRoom e worker room st)) r = assignedWorkers st r)
   \<and> (\<forall>r. assignedWorkers (snd (workerShouldRepave e worker st)) r = assignedWorkers st r)"
  by (simp add: assignedWorkers_def workerShouldRepaveRoom_registry workerShouldRepave_registry)

subsection \<open>The tracker's accessor\<close>

text \<open>
  C8: \<^verbatim>\<open>assignedWorkers(region)\<close> is total, and for a region with no entry in the
  registry it returns the empty sequence, not an absent value. (The function has no
  failing branch: its result is always a list.)
\<close>

theorem assignedWorkers_total:
  "p_assignedWorkers st (room.name room) = None \<Longrightarrow> assignedWorkers st room = []"
  by (simp add: assignedWorkers_def)

theorem assignedWorkers_total_witness:
  "p_assignedWorkers ex_state (room.name ex_room) = None \<and> assignedWorkers ex_state ex_room = []"
  using assignedWorkers_total [of ex_state ex_room] by (simp add: ex_state_def)
subsection \<open>Registration is idempotent\<close>





subsection \<open>The capacity of a room\<close>

text \<open>
  C3: if the workers assigned to the region, the candidate left out, are at least
  \<^verbatim>\<open>allowedPaversPerRoom\<close>, then \<^verbatim>\<open>workerShouldRepaveRoom\<close> returns false, whatever the
  roads of the region are (it does not even look at them: the memory is unchanged). In
  particular with \<^verbatim>\<open>allowedPaversPerRoom = 1\<close>, a region that holds another assigned
  worker yields false for a candidate that is not assigned.
\<close>

theorem workerShouldRepaveRoom_at_capacity:
  "(allowedPaversPerRoom (Settings e)
      \<le> of_nat (length (filter (\<lambda>name. name \<noteq> zerg.name worker) (assignedWorkers st room)))
      \<longrightarrow> workerShouldRepaveRoom e worker room st = (False, st))
   \<and> (allowedPaversPerRoom (Settings e) = 1 \<and> other \<in> set (assignedWorkers st room)
        \<and> other \<noteq> zerg.name worker \<and> zerg.name worker \<notin> set (assignedWorkers st room)
      \<longrightarrow> workerShouldRepaveRoom e worker room st = (False, st))"
proof (intro conjI impI)
  assume "allowedPaversPerRoom (Settings e)
      \<le> of_nat (length (filter (\<lambda>name. name \<noteq> zerg.name worker) (assignedWorkers st room)))"
  then show "workerShouldRepaveRoom e worker room st = (False, st)"
    by (simp add: workerShouldRepaveRoom_def Let_def)
next
  assume a: "allowedPaversPerRoom (Settings e) = 1 \<and> other \<in> set (assignedWorkers st room)
        \<and> other \<noteq> zerg.name worker \<and> zerg.name worker \<notin> set (assignedWorkers st room)"
  then have "other \<in> set (filter (\<lambda>name. name \<noteq> zerg.name worker) (assignedWorkers st room))"
    by simp
  then have "0 < length (filter (\<lambda>name. name \<noteq> zerg.name worker) (assignedWorkers st room))"
    by (simp only: length_pos_if_in_set)
  then have "allowedPaversPerRoom (Settings e)
      \<le> of_nat (length (filter (\<lambda>name. name \<noteq> zerg.name worker) (assignedWorkers st room)))"
    using a by (simp add: Suc_le_eq)
  then show "workerShouldRepaveRoom e worker room st = (False, st)"
    by (simp add: workerShouldRepaveRoom_def Let_def)
qed

theorem workerShouldRepaveRoom_at_capacity_witness:
  "allowedPaversPerRoom (Settings ex_env)
      \<le> of_nat (length (filter (\<lambda>name. name \<noteq> zerg.name ex_worker)
                          (assignedWorkers ex_booked ex_room)))
   \<and> allowedPaversPerRoom (Settings ex_env) = 1 \<and> ''W0'' \<in> set (assignedWorkers ex_booked ex_room)
   \<and> ''W0'' \<noteq> zerg.name ex_worker \<and> zerg.name ex_worker \<notin> set (assignedWorkers ex_booked ex_room)
   \<and> workerShouldRepaveRoom ex_env ex_worker ex_room ex_booked = (False, ex_booked)"
  using workerShouldRepaveRoom_at_capacity [of ex_env ex_worker ex_booked ex_room "''W0''"]
  by (simp add: assignedWorkers_def ex_booked_def ex_room_def ex_worker_def ex_env_def
      default_settings_def)
subsection \<open>A task in a room the game does not show\<close>

text \<open>
  C9: if the worker's repair task targets a position whose room name is not among
  \<^verbatim>\<open>Game.rooms\<close>, \<^verbatim>\<open>workerShouldRepave\<close> does not fail: the continuity branch is skipped
  and the result is that of the scan over the colony's rooms, from the same memory.
\<close>

theorem workerShouldRepave_unknown_room:
  assumes "task worker = Some t"
    and "task.name t = repairTaskName e"
    and "game.rooms (Game e) (roomName (targetPos t)) = None"
  shows "workerShouldRepave e worker st = scanRooms e worker (colony.rooms (Colony e)) st"
  using assms by (simp add: workerShouldRepave_def)

theorem workerShouldRepave_unknown_room_witness:
  "task ex_lost = Some \<lparr>task.name = ''repair'', targetRef = ''r9'',
                         targetPos = ex_pos ''W9N9'' 5 5\<rparr>
   \<and> repairTaskName ex_env = ''repair''
   \<and> game.rooms (Game ex_env) ''W9N9'' = None
   \<and> workerShouldRepave ex_env ex_lost ex_state
       = scanRooms ex_env ex_lost (colony.rooms (Colony ex_env)) ex_state"
  using workerShouldRepave_unknown_room [of ex_lost
      "\<lparr>task.name = ''repair'', targetRef = ''r9'', targetPos = ex_pos ''W9N9'' 5 5\<rparr>"
      ex_env ex_state]
  by (simp add: ex_lost_def ex_env_def ex_game_def ex_pos_def)
subsection \<open>Critical roads are repairable roads\<close>

lemma criticalRoads_computed:
  assumes "cached_structures e (''criticalRoads:'' @ room.name room) st = None"
  shows "fst (criticalRoads e room st)
         = sort_key (\<lambda>road. getMultiRoomRangeTo e (structureRoad.pos road) (colony.pos (Colony e)))
             (filter (\<lambda>road. of_nat (hits road)
                                < of_nat (hitsMax road) * criticalThreshold (Settings e)
                              \<and> roadShouldBeHere (Colony e) (structureRoad.pos road))
                (roads room))"
  using assms by (simp add: criticalRoads_def structures_def)

lemma repairableRoads_computed:
  assumes "cached_structures e (''repairableRoads:'' @ room.name room) st = None"
  shows "fst (repairableRoads e room st)
         = sort_key (\<lambda>road. getMultiRoomRangeTo e (structureRoad.pos road) (colony.pos (Colony e)))
             (filter (\<lambda>road. of_nat (hits road)
                                < of_nat (hitsMax road) * repairThreshold (Settings e)
                              \<and> roadShouldBeHere (Colony e) (structureRoad.pos road))
                (roads room))"
  using assms by (simp add: repairableRoads_def structures_def)

lemma criticalRoads_other_key:
  "cached_structures e (''repairableRoads:'' @ n) (snd (criticalRoads e room st))
   = cached_structures e (''repairableRoads:'' @ n) st"
  by (simp add: criticalRoads_def structures_def cached_structures_def split: option.splits)

lemma repairableRoads_other_key:
  "cached_structures e (''criticalRoads:'' @ n) (snd (repairableRoads e room st))
   = cached_structures e (''criticalRoads:'' @ n) st"
  by (simp add: repairableRoads_def structures_def cached_structures_def split: option.splits)

lemma below_critical_below_repair:
  assumes "criticalThreshold (Settings e) \<le> repairThreshold (Settings e)"
    and "of_nat (hits road) < of_nat (hitsMax road) * criticalThreshold (Settings e)"
  shows "of_nat (hits road) < of_nat (hitsMax road) * repairThreshold (Settings e)"
proof -
  have "of_nat (hitsMax road) * criticalThreshold (Settings e)
        \<le> of_nat (hitsMax road) * repairThreshold (Settings e)"
    using assms(1) by (simp add: mult_left_mono)
  with assms(2) show ?thesis by simp
qed

text \<open>
  C6: when \<^verbatim>\<open>criticalThreshold \<le> repairThreshold\<close> and both classifications are computed
  from the same snapshot of the region's structures (the cache holds neither of them
  alive, so both callbacks run on the same room, in either order), every structure of
  \<^verbatim>\<open>criticalRoads(region)\<close> is in \<^verbatim>\<open>repairableRoads(region)\<close>.
\<close>

theorem criticalRoads_subset_repairableRoads:
  assumes "criticalThreshold (Settings e) \<le> repairThreshold (Settings e)"
    and "cached_structures e (''criticalRoads:'' @ room.name room) st = None"
    and "cached_structures e (''repairableRoads:'' @ room.name room) st = None"
  shows "set (fst (criticalRoads e room st)) \<subseteq> set (fst (repairableRoads e room st))
         \<and> set (fst (criticalRoads e room st))
             \<subseteq> set (fst (repairableRoads e room (snd (criticalRoads e room st))))
         \<and> set (fst (criticalRoads e room (snd (repairableRoads e room st))))
             \<subseteq> set (fst (repairableRoads e room st))"
proof -
  have "cached_structures e (''repairableRoads:'' @ room.name room) (snd (criticalRoads e room st))
        = None"
    using assms(3) by (simp only: criticalRoads_other_key)
  moreover have "cached_structures e (''criticalRoads:'' @ room.name room)
                   (snd (repairableRoads e room st)) = None"
    using assms(2) by (simp only: repairableRoads_other_key)
  ultimately show ?thesis
    using assms below_critical_below_repair [OF assms(1)]
    by (auto simp: criticalRoads_computed repairableRoads_computed)
qed

theorem criticalRoads_subset_repairableRoads_witness:
  "criticalThreshold (Settings ex_env) \<le> repairThreshold (Settings ex_env)
   \<and> cached_structures ex_env (''criticalRoads:'' @ room.name ex_ruin) ex_state = None
   \<and> cached_structures ex_env (''repairableRoads:'' @ room.name ex_ruin) ex_state = None
   \<and> fst (criticalRoads ex_env ex_ruin ex_state) = [ex_road4]
   \<and> set (fst (criticalRoads ex_env ex_ruin ex_state))
       \<subseteq> set (fst (repairableRoads ex_env ex_ruin ex_state))"
  using criticalRoads_subset_repairableRoads [of ex_env ex_ruin ex_state]
  by (simp add: criticalRoads_def structures_def cached_structures_def ex_env_def ex_state_def
      ex_ruin_def ex_road4_def ex_road1_def default_settings_def ex_colony_def)
subsection \<open>The manifest\<close>

lemma contiguous_snoc:
  "contiguous e (ts @ [b])
   \<longleftrightarrow> contiguous e ts \<and> (ts \<noteq> [] \<longrightarrow> getRangeTo e (targetPos b) (targetPos (last ts)) \<le> 1)"
  by (induction e ts rule: contiguous.induct) auto

lemma pavingLoop_chain:
  assumes "distinct (map targetRef tasks)"
    and "\<forall>t \<in> set tasks. targetRefs (targetRef t) = Some True"
    and "contiguous e tasks"
    and "previousPos = (if tasks = [] then None else Some (targetPos (last tasks)))"
  shows "distinct (map targetRef (fst (pavingLoop e room energy targetRefs tasks previousPos st)))
         \<and> contiguous e (fst (pavingLoop e room energy targetRefs tasks previousPos st))"
  using assms
proof (induction e room energy targetRefs tasks previousPos st rule: pavingLoop.induct)
  case (1 e room energy targetRefs tasks previousPos st)
  show ?case
  proof (cases "energy \<le> 0")
    case True
    then show ?thesis
      using "1.prems" by (simp add: pavingLoop.simps)
  next
    case False
    obtain rs st' where call: "repairableRoads e room st = (rs, st')"
      by (cases "repairableRoads e room st")
    define target where "target =
      (case previousPos of
         Some p \<Rightarrow>
           find (\<lambda>road. hits road < hitsMax road \<and> targetRefs (road_id road) \<noteq> Some True
                         \<and> getRangeTo e (structureRoad.pos road) p \<le> 1) rs
       | None \<Rightarrow>
           find (\<lambda>road. hits road < hitsMax road \<and> targetRefs (road_id road) \<noteq> Some True) rs)"
    show ?thesis
    proof (cases target)
      case None
      then show ?thesis
        using False call "1.prems"(1,3) target_def
        by (simp add: pavingLoop.simps [of e room energy targetRefs tasks previousPos st])
    next
      case (Some t)
      have fresh: "targetRefs (road_id t) \<noteq> Some True"
        using Some target_def by (auto simp: find_Some_iff split: option.splits)
      have near: "tasks \<noteq> [] \<longrightarrow> getRangeTo e (structureRoad.pos t) (targetPos (last tasks)) \<le> 1"
        using Some target_def "1.prems"(4) by (auto simp: find_Some_iff split: option.splits)
      have new: "road_id t \<notin> targetRef ` set tasks"
        using fresh "1.prems"(2) by auto
      have "distinct (map targetRef (fst (pavingLoop e room (energy - repairCost e t)
                (targetRefs(road_id t \<mapsto> True)) (tasks @ [Tasks_repair e t])
                (Some (structureRoad.pos t)) st')))
            \<and> contiguous e (fst (pavingLoop e room (energy - repairCost e t)
                (targetRefs(road_id t \<mapsto> True)) (tasks @ [Tasks_repair e t])
                (Some (structureRoad.pos t)) st'))"
      proof (rule "1.IH" [OF False call [symmetric] refl target_def Some])
        show "distinct (map targetRef (tasks @ [Tasks_repair e t]))"
          using "1.prems"(1) new by (simp add: Tasks_repair_def)
        show "\<forall>a \<in> set (tasks @ [Tasks_repair e t]).
                (targetRefs(road_id t \<mapsto> True)) (targetRef a) = Some True"
          using "1.prems"(2) by (simp add: Tasks_repair_def)
        show "contiguous e (tasks @ [Tasks_repair e t])"
          using "1.prems"(3) near by (simp add: contiguous_snoc Tasks_repair_def)
        show "Some (structureRoad.pos t)
              = (if tasks @ [Tasks_repair e t] = [] then None
                 else Some (targetPos (last (tasks @ [Tasks_repair e t]))))"
          by (simp add: Tasks_repair_def)
      qed
      then show ?thesis
        using False call Some target_def
        by (simp add: pavingLoop.simps [of e room energy targetRefs tasks previousPos st])
    qed
  qed
qed

text \<open>
  C7: the chain that \<^verbatim>\<open>buildPavingManifest\<close> returns never targets the same structure id
  twice, and every action after the first targets a structure within range 1 of the
  position of the structure selected just before it.
\<close>

theorem buildPavingManifest_chain:
  assumes "fst (buildPavingManifest e worker room st) = Some chain"
  shows "distinct (map targetRef chain) \<and> contiguous e chain"
proof -
  have "fst (pavingLoop e room (of_nat (carry_energy worker)) Map.empty [] None st) = chain"
    using assms by (simp add: buildPavingManifest_def Tasks_chain_def split_beta split: if_splits)
  moreover have "distinct (map targetRef (fst (pavingLoop e room (of_nat (carry_energy worker)) Map.empty [] None st)))
     \<and> contiguous e (fst (pavingLoop e room (of_nat (carry_energy worker)) Map.empty [] None st))"
    by (rule pavingLoop_chain) simp_all
  ultimately show ?thesis by simp
qed

theorem buildPavingManifest_chain_witness:
  "fst (buildPavingManifest ex_env ex_worker ex_room ex_state)
     = Some [Tasks_repair ex_env ex_road1, Tasks_repair ex_env ex_road2,
             Tasks_repair ex_env ex_road3]
   \<and> distinct (map targetRef [Tasks_repair ex_env ex_road1, Tasks_repair ex_env ex_road2,
                               Tasks_repair ex_env ex_road3])
   \<and> contiguous ex_env [Tasks_repair ex_env ex_road1, Tasks_repair ex_env ex_road2,
                         Tasks_repair ex_env ex_road3]"
  using buildPavingManifest_chain [of ex_env ex_worker ex_room ex_state
      "[Tasks_repair ex_env ex_road1, Tasks_repair ex_env ex_road2, Tasks_repair ex_env ex_road3]"]
  by (simp add: buildPavingManifest_def pavingLoop.simps Tasks_chain_def Tasks_repair_def
      repairCost_def repairableRoads_def structures_def cached_structures_def ex_defs ref_def
      ROAD_CACHE_TIMEOUT_def one_enat_def)

subsection \<open>Three roads and 25 energy\<close>

lemma repairableRoads_settled:
  "repairableRoads e room (snd (repairableRoads e room st))
   = (fst (repairableRoads e room st), snd (repairableRoads e room st))"
  by (auto simp: repairableRoads_def structures_def cached_structures_def split: option.splits)

lemma repairCost_pos:
  assumes "0 < repairCost e road"
  shows "hits road < hitsMax road"
proof (rule ccontr)
  assume "\<not> hits road < hitsMax road"
  then have "(of_nat (hitsMax road) :: rat) - of_nat (hits road) \<le> 0"
    by simp
  then have "repairCost e road \<le> 0"
    unfolding repairCost_def by (rule divide_nonpos_nonneg) simp
  with assms show False by simp
qed

text \<open>
  C1, as the code has it: with exactly three repairable roads \<open>r1\<close>, \<open>r2\<close>, \<open>r3\<close> in the
  classifier's order (anchor distances 1, 2, 3), each costing 10 energy to repair, with
  different ids, \<open>r2\<close> within range 1 of \<open>r1\<close> and \<open>r3\<close> within range 1 of \<open>r2\<close>, and a
  worker carrying 25 energy, \<^verbatim>\<open>buildPavingManifest\<close> returns the chain of all three repair
  actions in this order. The loop stops only once the remaining energy is \<open>\<le> 0\<close>; after
  two repairs 5 is left, so the third road is targeted too, and the planned repairs cost
  30 in total.
\<close>

theorem buildPavingManifest_three_roads:
  assumes rs: "fst (repairableRoads e room st) = [r1, r2, r3]"
    and costs: "repairCost e r1 = 10" "repairCost e r2 = 10" "repairCost e r3 = 10"
    and ids: "distinct [road_id r1, road_id r2, road_id r3]"
    and adj: "getRangeTo e (structureRoad.pos r2) (structureRoad.pos r1) \<le> 1"
             "getRangeTo e (structureRoad.pos r3) (structureRoad.pos r2) \<le> 1"
    and energy: "carry_energy worker = 25"
  shows "fst (buildPavingManifest e worker room st)
           = Some [Tasks_repair e r1, Tasks_repair e r2, Tasks_repair e r3]
         \<and> sum_list (map (repairCost e) [r1, r2, r3]) = 30"
proof -
  define st' where "st' = snd (repairableRoads e room st)"
  have call: "repairableRoads e room st = ([r1, r2, r3], st')"
    using rs by (simp add: st'_def prod_eq_iff)
  have again: "repairableRoads e room st' = ([r1, r2, r3], st')"
    using rs repairableRoads_settled [of e room st] by (simp add: st'_def)
  have damaged: "hits r1 < hitsMax r1" "hits r2 < hitsMax r2" "hits r3 < hitsMax r3"
    using costs repairCost_pos [of e r1] repairCost_pos [of e r2] repairCost_pos [of e r3]
    by simp_all
  let ?t1 = "Tasks_repair e r1" and ?t2 = "Tasks_repair e r2" and ?t3 = "Tasks_repair e r3"
  have step4: "pavingLoop e room (- 5) [road_id r1 \<mapsto> True, road_id r2 \<mapsto> True, road_id r3 \<mapsto> True]
                 [?t1, ?t2, ?t3] (Some (structureRoad.pos r3)) st' = ([?t1, ?t2, ?t3], st')"
    by (simp add: pavingLoop.simps)
  have step3: "pavingLoop e room 5 [road_id r1 \<mapsto> True, road_id r2 \<mapsto> True]
                 [?t1, ?t2] (Some (structureRoad.pos r2)) st' = ([?t1, ?t2, ?t3], st')"
    using ids adj damaged costs again step4
    by (subst pavingLoop.simps) auto
  have step2: "pavingLoop e room 15 [road_id r1 \<mapsto> True]
                 [?t1] (Some (structureRoad.pos r1)) st' = ([?t1, ?t2, ?t3], st')"
    using ids adj damaged costs again step3
    by (subst pavingLoop.simps) auto
  have step1: "pavingLoop e room 25 Map.empty [] None st = ([?t1, ?t2, ?t3], st')"
    using ids adj damaged costs call step2
    by (subst pavingLoop.simps) auto
  show ?thesis
    using step1 energy costs by (simp add: buildPavingManifest_def Tasks_chain_def)
qed

theorem buildPavingManifest_three_roads_witness:
  "fst (repairableRoads ex_env ex_room ex_state) = [ex_road1, ex_road2, ex_road3]
   \<and> repairCost ex_env ex_road1 = 10 \<and> repairCost ex_env ex_road2 = 10
   \<and> repairCost ex_env ex_road3 = 10
   \<and> distinct [road_id ex_road1, road_id ex_road2, road_id ex_road3]
   \<and> getRangeTo ex_env (structureRoad.pos ex_road2) (structureRoad.pos ex_road1) \<le> 1
   \<and> getRangeTo ex_env (structureRoad.pos ex_road3) (structureRoad.pos ex_road2) \<le> 1
   \<and> carry_energy ex_worker = 25
   \<and> fst (buildPavingManifest ex_env ex_worker ex_room ex_state)
       = Some [Tasks_repair ex_env ex_road1, Tasks_repair ex_env ex_road2,
               Tasks_repair ex_env ex_road3]"
  using buildPavingManifest_three_roads [of ex_env ex_room ex_state ex_road1 ex_road2 ex_road3
      ex_worker]
  by (simp add: repairableRoads_def structures_def cached_structures_def repairCost_def
      ex_defs one_enat_def)

text \<open>
  The scenario of C1 evaluated: three repairable roads at anchor distances 1, 2, 3, each
  costing 10, adjacent in sequence, a worker carrying 25. The chain has three actions,
  not two.
\<close>

theorem buildPavingManifest_two_actions_counterexample:
  "fst (repairableRoads ex_env ex_room ex_state) = [ex_road1, ex_road2, ex_road3]
   \<and> getMultiRoomRangeTo ex_env (structureRoad.pos ex_road1) (colony.pos (Colony ex_env)) = 1
   \<and> getMultiRoomRangeTo ex_env (structureRoad.pos ex_road2) (colony.pos (Colony ex_env)) = 2
   \<and> getMultiRoomRangeTo ex_env (structureRoad.pos ex_road3) (colony.pos (Colony ex_env)) = 3
   \<and> repairCost ex_env ex_road1 = 10 \<and> repairCost ex_env ex_road2 = 10
   \<and> repairCost ex_env ex_road3 = 10
   \<and> getRangeTo ex_env (structureRoad.pos ex_road2) (structureRoad.pos ex_road1) \<le> 1
   \<and> getRangeTo ex_env (structureRoad.pos ex_road3) (structureRoad.pos ex_road2) \<le> 1
   \<and> carry_energy ex_worker = 25
   \<and> map_option (map targetRef) (fst (buildPavingManifest ex_env ex_worker ex_room ex_state))
       = Some [''r1'', ''r2'', ''r3'']
   \<and> map_option length (fst (buildPavingManifest ex_env ex_worker ex_room ex_state)) \<noteq> Some 2"
  by (simp add: buildPavingManifest_def pavingLoop.simps Tasks_chain_def Tasks_repair_def
      repairCost_def repairableRoads_def structures_def cached_structures_def ex_defs ref_def
      ROAD_CACHE_TIMEOUT_def one_enat_def)

subsection \<open>Double booking\<close>

lemma listed_refresh: "listed (refresh st) r w \<longleftrightarrow> False"
  by (simp add: listed_def refresh_def)

lemma listed_register:
  "listed (registerWorkerAssignment worker room st) r w
   \<longleftrightarrow> listed st r w \<or> (r = room.name room \<and> w = zerg.name worker)"
  by (auto simp: listed_def registerWorkerAssignment_def split: option.splits if_splits)

lemma listed_init_worker:
  "listed (init_worker e worker st) r w
   \<longleftrightarrow> listed st r w
       \<or> (\<exists>t. task worker = Some t \<and> task.name t = repairTaskName e
               \<and> r = roomName (targetPos t) \<and> w = zerg.name worker)"
  by (auto simp: listed_def init_worker_def Let_def split: option.splits if_splits)

lemma singleBooked_add:
  assumes "singleBooked st"
    and "\<forall>r'. listed st r' w \<longrightarrow> r' = r"
    and "\<And>r' w'. listed st' r' w' \<longleftrightarrow> listed st r' w' \<or> (r' = r \<and> w' = w)"
  shows "singleBooked st'"
  unfolding singleBooked_def
proof (intro allI impI)
  fix w' r1 r2
  assume "listed st' r1 w' \<and> listed st' r2 w'"
  then have a: "listed st r1 w' \<or> (r1 = r \<and> w' = w)"
    and b: "listed st r2 w' \<or> (r2 = r \<and> w' = w)"
    by (simp_all add: assms(3))
  show "r1 = r2"
  proof (cases "w' = w")
    case True
    then have "r1 = r" and "r2 = r"
      using a b assms(2) by auto
    then show ?thesis by simp
  next
    case False
    then have "listed st r1 w'" and "listed st r2 w'"
      using a b by auto
    then show ?thesis
      using assms(1) unfolding singleBooked_def by blast
  qed
qed

lemma singleBooked_init_workers:
  assumes "singleBooked st"
    and "distinct (map zerg.name ws)"
    and "\<forall>worker \<in> set ws. \<forall>t r'.
            task worker = Some t \<and> task.name t = repairTaskName e \<and> listed st r' (zerg.name worker)
            \<longrightarrow> r' = roomName (targetPos t)"
  shows "singleBooked (fold (init_worker e) ws st)"
  using assms
proof (induction ws arbitrary: st)
  case Nil
  then show ?case by simp
next
  case (Cons worker ws)
  have step: "singleBooked (init_worker e worker st)"
  proof (cases "\<exists>t. task worker = Some t \<and> task.name t = repairTaskName e")
    case True
    then obtain t where t: "task worker = Some t" "task.name t = repairTaskName e"
      by blast
    show ?thesis
    proof (rule singleBooked_add [OF Cons.prems(1)])
      show "\<forall>r'. listed st r' (zerg.name worker) \<longrightarrow> r' = roomName (targetPos t)"
        using Cons.prems(3) t by simp
      show "listed (init_worker e worker st) r' w'
            \<longleftrightarrow> listed st r' w' \<or> (r' = roomName (targetPos t) \<and> w' = zerg.name worker)" for r' w'
        using t by (auto simp: listed_init_worker)
    qed
  next
    case False
    then have "init_worker e worker st = st"
      by (auto simp: init_worker_def split: option.splits)
    then show ?thesis
      using Cons.prems(1) by simp
  qed
  have rest: "\<forall>worker' \<in> set ws. \<forall>t r'.
            task worker' = Some t \<and> task.name t = repairTaskName e
              \<and> listed (init_worker e worker st) r' (zerg.name worker')
            \<longrightarrow> r' = roomName (targetPos t)"
  proof (intro ballI allI impI)
    fix worker' t r'
    assume w': "worker' \<in> set ws"
      and h: "task worker' = Some t \<and> task.name t = repairTaskName e
              \<and> listed (init_worker e worker st) r' (zerg.name worker')"
    have "zerg.name worker' \<noteq> zerg.name worker"
      using Cons.prems(2) w' by (auto simp: image_iff)
    then have "listed st r' (zerg.name worker')"
      using h by (simp add: listed_init_worker)
    then show "r' = roomName (targetPos t)"
      using Cons.prems(3) w' h by auto
  qed
  have "singleBooked (fold (init_worker e) ws (init_worker e worker st))"
    using step rest Cons.prems(2) by (intro Cons.IH) simp_all
  then show ?case by simp
qed

lemma singleBooked_apply_op:
  assumes "singleBooked st" and "admissible e st op"
  shows "singleBooked (apply_op e op st)"
proof (cases op)
  case Refresh
  then show ?thesis
    by (simp add: singleBooked_def listed_refresh)
next
  case Init
  then show ?thesis
    using assms singleBooked_init_workers [of st "workers (Colony e)" e]
    by (simp add: init_def)
next
  case (Register worker room)
  show ?thesis
    unfolding Register apply_op.simps
  proof (rule singleBooked_add [OF assms(1)])
    show "\<forall>r'. listed st r' (zerg.name worker) \<longrightarrow> r' = room.name room"
      using assms(2) Register by simp
    show "listed (registerWorkerAssignment worker room st) r' w'
          \<longleftrightarrow> listed st r' w' \<or> (r' = room.name room \<and> w' = zerg.name worker)" for r' w'
      by (rule listed_register)
  qed
qed

text \<open>
  C2, as the code has it: within one planning cycle, that every worker id is in at most
  one region's list is preserved by every sequence of \<^verbatim>\<open>refresh\<close>, \<^verbatim>\<open>init\<close> and
  \<^verbatim>\<open>registerWorkerAssignment\<close> in which the driver registers a worker for a region only
  while no other region lists it, and runs \<^verbatim>\<open>init\<close> only while no other region lists a
  worker that is in the middle of a repair task (worker names being pairwise distinct).
  The class itself never looks across regions.
\<close>

theorem singleBooked_run:
  assumes "singleBooked st" and "admissible_run e ops st"
  shows "singleBooked (run e ops st)"
  using assms
proof (induction ops arbitrary: st)
  case Nil
  then show ?case by (simp add: run_def)
next
  case (Cons op ops)
  then have "singleBooked (apply_op e op st)" and "admissible_run e ops (apply_op e op st)"
    by (simp_all add: singleBooked_apply_op)
  then have "singleBooked (run e ops (apply_op e op st))"
    by (rule Cons.IH)
  then show ?case by (simp add: run_def)
qed

theorem singleBooked_run_witness:
  "singleBooked ex_state
   \<and> admissible_run ex_env [Refresh, Init, Register ex_worker ex_room] ex_state
   \<and> p_assignedWorkers (run ex_env [Refresh, Init, Register ex_worker ex_room] ex_state)
       = [''W2N1'' \<mapsto> [''W2''], ''W1N1'' \<mapsto> [''W1'']]
   \<and> singleBooked (run ex_env [Refresh, Init, Register ex_worker ex_room] ex_state)"
proof -
  have a: "singleBooked ex_state"
    by (simp add: singleBooked_def listed_def ex_state_def)
  have b: "admissible_run ex_env [Refresh, Init, Register ex_worker ex_room] ex_state"
    by (simp add: listed_def refresh_def init_def init_worker_def registerWorkerAssignment_def
        ex_defs ex_repairer_def split: if_splits)
  have c: "p_assignedWorkers (run ex_env [Refresh, Init, Register ex_worker ex_room] ex_state)
       = [''W2N1'' \<mapsto> [''W2''], ''W1N1'' \<mapsto> [''W1'']]"
    by (simp add: run_def refresh_def init_def init_worker_def registerWorkerAssignment_def
        ex_defs ex_repairer_def)
  show ?thesis
    using a b c singleBooked_run [OF a b] by simp
qed

text \<open>
  C2 as stated fails: the driver registers the same worker for two regions, and the
  registry, single-booked before, lists the worker under both.
\<close>

theorem singleBooked_run_counterexample:
  "singleBooked ex_state
   \<and> listed (run ex_env [Refresh, Register ex_worker ex_room, Register ex_worker ex_far] ex_state)
       ''W1N1'' ''W1''
   \<and> listed (run ex_env [Refresh, Register ex_worker ex_room, Register ex_worker ex_far] ex_state)
       ''W2N1'' ''W1''
   \<and> \<not> singleBooked
         (run ex_env [Refresh, Register ex_worker ex_room, Register ex_worker ex_far] ex_state)"
proof -
  let ?st = "run ex_env [Refresh, Register ex_worker ex_room, Register ex_worker ex_far] ex_state"
  have a: "singleBooked ex_state"
    by (simp add: singleBooked_def listed_def ex_state_def)
  have b: "listed ?st ''W1N1'' ''W1''" and c: "listed ?st ''W2N1'' ''W1''"
    by (simp_all add: run_def listed_def refresh_def registerWorkerAssignment_def ex_defs ex_far_def)
  have "\<not> singleBooked ?st"
  proof
    assume "singleBooked ?st"
    then have "''W1N1'' = ''W2N1''"
      using b c unfolding singleBooked_def by blast
    then show False by simp
  qed
  then show ?thesis
    using a b c by simp
qed

subsection \<open>What the classifier queries do to the cache\<close>

lemma structures_effect:
  "cached_structures e k (snd (structures e key (\<lambda>s. (v, s)) timeout st))
   = (if k = key then Some (fst (structures e key (\<lambda>s. (v, s)) timeout st))
      else cached_structures e k st)"
  by (auto simp: structures_def cached_structures_def split: option.splits)

lemma structures_hit:
  "cached_structures e key st = Some v \<Longrightarrow> fst (structures e key callback timeout st) = v"
  by (simp add: structures_def)

lemma structures_depends:
  "cached_structures e key st' = cached_structures e key st
   \<Longrightarrow> fst (structures e key (\<lambda>s. (v, s)) timeout st')
       = fst (structures e key (\<lambda>s. (v, s)) timeout st)"
  by (simp add: structures_def split: option.splits)

lemma structures_number:
  "cache_number (snd (structures e key (\<lambda>s. (v, s)) timeout st)) = cache_number st"
  by (simp add: structures_def split: option.splits)

lemma repairableRoads_effect:
  "cached_structures e k (snd (repairableRoads e room st))
   = (if k = ''repairableRoads:'' @ room.name room then Some (fst (repairableRoads e room st))
      else cached_structures e k st)"
  unfolding repairableRoads_def by (rule structures_effect)

lemma repairableRoads_hit:
  "cached_structures e (''repairableRoads:'' @ room.name room) st = Some v
   \<Longrightarrow> fst (repairableRoads e room st) = v"
  unfolding repairableRoads_def by (rule structures_hit)

lemma repairableRoads_depends:
  "cached_structures e (''repairableRoads:'' @ room.name room) st'
     = cached_structures e (''repairableRoads:'' @ room.name room) st
   \<Longrightarrow> fst (repairableRoads e room st') = fst (repairableRoads e room st)"
  unfolding repairableRoads_def by (rule structures_depends)

lemma repairableRoads_number:
  "cache_number (snd (repairableRoads e room st)) = cache_number st"
  unfolding repairableRoads_def by (rule structures_number)

lemma criticalRoads_effect:
  "cached_structures e k (snd (criticalRoads e room st))
   = (if k = ''criticalRoads:'' @ room.name room then Some (fst (criticalRoads e room st))
      else cached_structures e k st)"
  unfolding criticalRoads_def by (rule structures_effect)

lemma criticalRoads_hit:
  "cached_structures e (''criticalRoads:'' @ room.name room) st = Some v
   \<Longrightarrow> fst (criticalRoads e room st) = v"
  unfolding criticalRoads_def by (rule structures_hit)

lemma criticalRoads_depends:
  "cached_structures e (''criticalRoads:'' @ room.name room) st'
     = cached_structures e (''criticalRoads:'' @ room.name room) st
   \<Longrightarrow> fst (criticalRoads e room st') = fst (criticalRoads e room st)"
  unfolding criticalRoads_def by (rule structures_depends)

lemma criticalRoads_number:
  "cache_number (snd (criticalRoads e room st)) = cache_number st"
  unfolding criticalRoads_def by (rule structures_number)

lemma energyToRepave_hit:
  "cached_number e (''energyToRepave:'' @ room.name room) st = Some v
   \<Longrightarrow> fst (energyToRepave e room st) = v"
  by (simp add: energyToRepave_def number_def)

lemma energyToRepave_depends:
  assumes "cached_number e (''energyToRepave:'' @ room.name room) st'
             = cached_number e (''energyToRepave:'' @ room.name room) st"
    and "fst (repairableRoads e room st') = fst (repairableRoads e room st)"
  shows "fst (energyToRepave e room st') = fst (energyToRepave e room st)"
  using assms by (simp add: energyToRepave_def number_def split_beta split: option.splits)

lemma energyToRepave_effect:
  "cached_number e k (snd (energyToRepave e room st))
   = (if k = ''energyToRepave:'' @ room.name room then Some (fst (energyToRepave e room st))
      else cached_number e k st)"
  by (auto simp: energyToRepave_def number_def cached_number_def split_beta repairableRoads_number
      split: option.splits)

lemma energyToRepave_structures:
  "cached_structures e k (snd (energyToRepave e room st))
   = (if cached_number e (''energyToRepave:'' @ room.name room) st = None
      then cached_structures e k (snd (repairableRoads e room st))
      else cached_structures e k st)"
  by (auto simp: energyToRepave_def number_def cached_structures_def split_beta
      split: option.splits)
subsection \<open>The queries answer alike all through a tick\<close>

lemma visible_same_name:
  "visible e room \<Longrightarrow> visible e room' \<Longrightarrow> room.name room = room.name room' \<Longrightarrow> room = room'"
  by (simp add: visible_def)

lemma agree_refl: "agree e st st"
  by (simp add: agree_def)

lemma agree_trans: "agree e st st' \<Longrightarrow> agree e st' st'' \<Longrightarrow> agree e st st''"
  by (simp add: agree_def)

lemma repairableRoads_after_repairableRoads:
  assumes "visible e room" and "visible e room0"
  shows "fst (repairableRoads e room (snd (repairableRoads e room0 st)))
         = fst (repairableRoads e room st)"
proof (cases "room.name room = room.name room0")
  case True
  then have "room = room0"
    by (rule visible_same_name [OF assms(1) assms(2)])
  then show ?thesis
    by (simp add: repairableRoads_settled)
next
  case False
  then show ?thesis
    by (intro repairableRoads_depends) (simp add: repairableRoads_effect)
qed

lemma criticalRoads_after_criticalRoads:
  assumes "visible e room" and "visible e room0"
  shows "fst (criticalRoads e room (snd (criticalRoads e room0 st)))
         = fst (criticalRoads e room st)"
proof (cases "room.name room = room.name room0")
  case True
  then have "room = room0"
    by (rule visible_same_name [OF assms(1) assms(2)])
  then show ?thesis
    by (intro criticalRoads_hit) (simp add: criticalRoads_effect)
next
  case False
  then show ?thesis
    by (intro criticalRoads_depends) (simp add: criticalRoads_effect)
qed

lemma agree_repairableRoads:
  assumes "visible e room0"
  shows "agree e st (snd (repairableRoads e room0 st))"
  unfolding agree_def
proof (intro conjI allI impI)
  show "p_assignedWorkers (snd (repairableRoads e room0 st)) = p_assignedWorkers st"
    by (rule repairableRoads_registry)
next
  fix room
  assume "visible e room"
  show "fst (criticalRoads e room (snd (repairableRoads e room0 st)))
        = fst (criticalRoads e room st)"
    by (intro criticalRoads_depends) (simp add: repairableRoads_effect)
  show r: "fst (repairableRoads e room (snd (repairableRoads e room0 st)))
        = fst (repairableRoads e room st)"
    using \<open>visible e room\<close> assms by (rule repairableRoads_after_repairableRoads)
  show "fst (energyToRepave e room (snd (repairableRoads e room0 st)))
        = fst (energyToRepave e room st)"
    using r by (intro energyToRepave_depends) (simp_all add: cached_number_def repairableRoads_number)
qed

lemma agree_criticalRoads:
  assumes "visible e room0"
  shows "agree e st (snd (criticalRoads e room0 st))"
  unfolding agree_def
proof (intro conjI allI impI)
  show "p_assignedWorkers (snd (criticalRoads e room0 st)) = p_assignedWorkers st"
    by (rule criticalRoads_registry)
next
  fix room
  assume "visible e room"
  show "fst (criticalRoads e room (snd (criticalRoads e room0 st)))
        = fst (criticalRoads e room st)"
    using \<open>visible e room\<close> assms by (rule criticalRoads_after_criticalRoads)
  show r: "fst (repairableRoads e room (snd (criticalRoads e room0 st)))
        = fst (repairableRoads e room st)"
    by (intro repairableRoads_depends) (simp add: criticalRoads_effect)
  show "fst (energyToRepave e room (snd (criticalRoads e room0 st)))
        = fst (energyToRepave e room st)"
    using r by (intro energyToRepave_depends) (simp_all add: cached_number_def criticalRoads_number)
qed

lemma agree_energyToRepave:
  assumes "visible e room0"
  shows "agree e st (snd (energyToRepave e room0 st))"
  unfolding agree_def
proof (intro conjI allI impI)
  show "p_assignedWorkers (snd (energyToRepave e room0 st)) = p_assignedWorkers st"
    by (rule energyToRepave_registry)
next
  fix room
  assume v: "visible e room"
  show "fst (criticalRoads e room (snd (energyToRepave e room0 st)))
        = fst (criticalRoads e room st)"
    by (intro criticalRoads_depends)
      (simp add: energyToRepave_structures repairableRoads_effect)
  show r: "fst (repairableRoads e room (snd (energyToRepave e room0 st)))
        = fst (repairableRoads e room st)"
  proof (cases "cached_number e (''energyToRepave:'' @ room.name room0) st = None")
    case True
    have "fst (repairableRoads e room (snd (energyToRepave e room0 st)))
          = fst (repairableRoads e room (snd (repairableRoads e room0 st)))"
      using True by (intro repairableRoads_depends) (simp add: energyToRepave_structures)
    then show ?thesis
      using v assms by (simp add: repairableRoads_after_repairableRoads)
  next
    case False
    then obtain v where "cached_number e (''energyToRepave:'' @ room.name room0) st = Some v"
      by blast
    then show ?thesis
      by (intro repairableRoads_depends) (simp add: energyToRepave_structures)
  qed
  show "fst (energyToRepave e room (snd (energyToRepave e room0 st)))
        = fst (energyToRepave e room st)"
  proof (cases "room.name room = room.name room0")
    case True
    then have "room = room0"
      by (rule visible_same_name [OF v assms])
    then show ?thesis
      by (intro energyToRepave_hit) (simp add: energyToRepave_effect)
  next
    case False
    then show ?thesis
      using r by (intro energyToRepave_depends) (simp_all add: energyToRepave_effect)
  qed
qed
subsection \<open>A region with nothing left to repair\<close>

lemma repairableRoads_persists:
  "cached_structures e k st = Some v
   \<Longrightarrow> cached_structures e k (snd (repairableRoads e room st)) = Some v"
  using repairableRoads_hit [of e room st v] by (auto simp: repairableRoads_effect)

lemma criticalRoads_persists:
  "cached_structures e k st = Some v
   \<Longrightarrow> cached_structures e k (snd (criticalRoads e room st)) = Some v"
  using criticalRoads_hit [of e room st v] by (auto simp: criticalRoads_effect)

lemma energyToRepave_persists:
  "cached_structures e k st = Some v
   \<Longrightarrow> cached_structures e k (snd (energyToRepave e room st)) = Some v"
  by (simp add: energyToRepave_structures repairableRoads_persists)

lemma workerShouldRepaveRoom_persists:
  "cached_structures e k st = Some v
   \<Longrightarrow> cached_structures e k (snd (workerShouldRepaveRoom e worker room st)) = Some v"
  by (simp add: workerShouldRepaveRoom_def Let_def split_beta repairableRoads_persists
      criticalRoads_persists energyToRepave_persists)

text \<open>
  Once the room is at capacity, or the cache holds an empty list of repairable roads for
  it, no room of that name is worth repaving for a worker listed there.
\<close>

lemma workerShouldRepaveRoom_settled:
  assumes "zerg.name worker \<in> set (assignedWorkers st room)"
    and "\<not> of_nat (length (filter (\<lambda>name. name \<noteq> zerg.name worker) (assignedWorkers st room)))
             < allowedPaversPerRoom (Settings e)
         \<or> cached_structures e (''repairableRoads:'' @ room.name room) st = Some []"
  shows "\<not> fst (workerShouldRepaveRoom e worker room st)"
  using assms repairableRoads_hit [of e room st "[]"]
  by (auto simp: workerShouldRepaveRoom_def Let_def split_beta)

lemma scanRooms_settled:
  assumes "zerg.name worker \<in> set (assignedWorkers st roomA)"
    and "\<not> of_nat (length (filter (\<lambda>name. name \<noteq> zerg.name worker) (assignedWorkers st roomA)))
             < allowedPaversPerRoom (Settings e)
         \<or> cached_structures e (''repairableRoads:'' @ room.name roomA) st = Some []"
    and "fst (scanRooms e worker rs st) = Some room"
  shows "room.name room \<noteq> room.name roomA"
  using assms
proof (induction rs arbitrary: st)
  case Nil
  then show ?case by simp
next
  case (Cons room0 rest)
  let ?st' = "snd (workerShouldRepaveRoom e worker room0 st)"
  have reg: "assignedWorkers ?st' roomA = assignedWorkers st roomA"
    by (simp add: assignedWorkers_def workerShouldRepaveRoom_registry)
  have settled': "\<not> of_nat (length (filter (\<lambda>name. name \<noteq> zerg.name worker)
                                  (assignedWorkers ?st' roomA)))
             < allowedPaversPerRoom (Settings e)
         \<or> cached_structures e (''repairableRoads:'' @ room.name roomA) ?st' = Some []"
    using Cons.prems(2) reg by (auto simp: workerShouldRepaveRoom_persists)
  have later: "room.name room \<noteq> room.name roomA"
    if "fst (scanRooms e worker rest ?st') = Some room"
    using Cons.prems(1) settled' that reg by (intro Cons.IH [of ?st']) simp_all
  have skip: "room.name room \<noteq> room.name roomA"
    if "fst (scanRooms e worker rest st) = Some room"
    using Cons.prems(1,2) that by (intro Cons.IH [of st])
  show ?case
  proof (cases "room.name room0 = room.name roomA")
    case True
    then have "assignedWorkers st room0 = assignedWorkers st roomA"
      by (simp add: assignedWorkers_def)
    then have "\<not> fst (workerShouldRepaveRoom e worker room0 st)"
      using Cons.prems(1,2) True by (intro workerShouldRepaveRoom_settled) simp_all
    then show ?thesis
      using Cons.prems(3) later skip by (simp add: split_beta split: if_splits)
  next
    case False
    then show ?thesis
      using Cons.prems(3) later skip by (auto simp: split_beta split: if_splits)
  qed
qed
lemma agree_workerShouldRepaveRoom:
  assumes "visible e room"
  shows "agree e st (snd (workerShouldRepaveRoom e worker room st))"
proof -
  have "agree e st (snd (energyToRepave e room (snd (criticalRoads e room st))))"
    using agree_criticalRoads [OF assms, of st]
      agree_energyToRepave [OF assms, of "snd (criticalRoads e room st)"]
    by (rule agree_trans)
  then show ?thesis
    using agree_refl [of e st] agree_repairableRoads [OF assms, of st]
      agree_criticalRoads [OF assms, of st]
    by (simp add: workerShouldRepaveRoom_def Let_def split_beta)
qed

lemma workerShouldRepaveRoom_depends:
  assumes "visible e room" and "agree e st st'"
  shows "fst (workerShouldRepaveRoom e worker room st')
         = fst (workerShouldRepaveRoom e worker room st)"
proof -
  have reg: "assignedWorkers st' room = assignedWorkers st room"
    using assms(2) by (simp add: agree_def assignedWorkers_def)
  have r: "fst (repairableRoads e room st') = fst (repairableRoads e room st)"
    and c: "fst (criticalRoads e room st') = fst (criticalRoads e room st)"
    and en: "fst (energyToRepave e room st') = fst (energyToRepave e room st)"
    using assms by (simp_all add: agree_def)
  have "fst (energyToRepave e room (snd (criticalRoads e room st')))
        = fst (energyToRepave e room st')"
    using agree_criticalRoads [OF assms(1), of st'] assms(1) by (simp add: agree_def)
  moreover have "fst (energyToRepave e room (snd (criticalRoads e room st)))
        = fst (energyToRepave e room st)"
    using agree_criticalRoads [OF assms(1), of st] assms(1) by (simp add: agree_def)
  ultimately have en': "fst (energyToRepave e room (snd (criticalRoads e room st')))
        = fst (energyToRepave e room (snd (criticalRoads e room st)))"
    using en by simp
  show ?thesis
    using reg r c en' by (simp add: workerShouldRepaveRoom_def Let_def split_beta)
qed

text \<open>
  When every room of the colony is visible, the scan returns the first room that is active,
  safe and worth repaving as seen from the memory the query started with: the cache that
  fills up on the way changes no answer.
\<close>

lemma scanRooms_find:
  assumes "\<forall>room \<in> set rs. visible e room" and "agree e st st'"
  shows "fst (scanRooms e worker rs st')
         = find (\<lambda>room. isRoomActive (Colony e) (room.name room) \<and> isSafe room
                        \<and> fst (workerShouldRepaveRoom e worker room st)) rs"
  using assms
proof (induction rs arbitrary: st')
  case Nil
  show ?case by simp
next
  case (Cons room rest)
  have v: "visible e room" and vs: "\<forall>room \<in> set rest. visible e room"
    using Cons.prems(1) by simp_all
  have same: "fst (workerShouldRepaveRoom e worker room st')
              = fst (workerShouldRepaveRoom e worker room st)"
    using v Cons.prems(2) by (rule workerShouldRepaveRoom_depends)
  have "agree e st (snd (workerShouldRepaveRoom e worker room st'))"
    using Cons.prems(2) agree_workerShouldRepaveRoom [OF v] by (rule agree_trans)
  then have next1: "fst (scanRooms e worker rest (snd (workerShouldRepaveRoom e worker room st')))
        = find (\<lambda>room. isRoomActive (Colony e) (room.name room) \<and> isSafe room
                        \<and> fst (workerShouldRepaveRoom e worker room st)) rest"
    using vs by (intro Cons.IH)
  have next2: "fst (scanRooms e worker rest st')
        = find (\<lambda>room. isRoomActive (Colony e) (room.name room) \<and> isSafe room
                        \<and> fst (workerShouldRepaveRoom e worker room st)) rest"
    using vs Cons.prems(2) by (intro Cons.IH)
  show ?case
    using same next1 next2 by (simp add: split_beta)
qed

text \<open>
  C4: a worker whose current task is a repair task in region A (the room the game shows
  under the name of the task's target position), listed in \<^verbatim>\<open>assignedWorkers(A)\<close>, with
  \<^verbatim>\<open>repairableRoads(A)\<close> empty: \<^verbatim>\<open>workerShouldRepave\<close> never returns region A; and when
  no other region of the colony is active, safe and worth repaving for the worker, it
  returns none (the colony's rooms being rooms the game shows).
\<close>

theorem workerShouldRepave_nothing_left:
  assumes "task worker = Some t"
    and "task.name t = repairTaskName e"
    and "game.rooms (Game e) (roomName (targetPos t)) = Some roomA"
    and "room.name roomA = roomName (targetPos t)"
    and "zerg.name worker \<in> set (assignedWorkers st roomA)"
    and "fst (repairableRoads e roomA st) = []"
  shows "(\<forall>room. fst (workerShouldRepave e worker st) = Some room
            \<longrightarrow> room.name room \<noteq> room.name roomA)
         \<and> ((\<forall>room \<in> set (colony.rooms (Colony e)). visible e room)
             \<and> (\<forall>room \<in> set (colony.rooms (Colony e)). room.name room \<noteq> room.name roomA \<longrightarrow>
                  \<not> (isRoomActive (Colony e) (room.name room) \<and> isSafe room
                     \<and> fst (workerShouldRepaveRoom e worker room st)))
            \<longrightarrow> fst (workerShouldRepave e worker st) = None)"
proof -
  let ?cond = "\<lambda>room. isRoomActive (Colony e) (room.name room) \<and> isSafe room
                       \<and> fst (workerShouldRepaveRoom e worker room st)"
  let ?st' = "snd (workerShouldRepaveRoom e worker roomA st)"
  have vA: "visible e roomA"
    using assms(3,4) by (simp add: visible_def)
  have no: "\<not> fst (workerShouldRepaveRoom e worker roomA st)"
    using assms(5,6) by (simp add: workerShouldRepaveRoom_def Let_def split_beta)
  have scan: "fst (workerShouldRepave e worker st)
              = fst (scanRooms e worker (colony.rooms (Colony e)) ?st')"
    using assms(1,2,3,5) no by (simp add: workerShouldRepave_def split_beta)
  have reg: "assignedWorkers ?st' roomA = assignedWorkers st roomA"
    by (simp add: assignedWorkers_def workerShouldRepaveRoom_registry)
  have settled: "\<not> of_nat (length (filter (\<lambda>name. name \<noteq> zerg.name worker)
                                  (assignedWorkers ?st' roomA)))
             < allowedPaversPerRoom (Settings e)
         \<or> cached_structures e (''repairableRoads:'' @ room.name roomA) ?st' = Some []"
    using assms(5,6) reg repairableRoads_effect [of e "''repairableRoads:'' @ room.name roomA" roomA st]
    by (auto simp: workerShouldRepaveRoom_def Let_def split_beta)
  have part1: "room.name room \<noteq> room.name roomA"
    if "fst (workerShouldRepave e worker st) = Some room" for room
    using assms(5) settled that reg scan by (intro scanRooms_settled [of worker ?st']) simp_all
  have part2: "fst (workerShouldRepave e worker st) = None"
    if v: "\<forall>room \<in> set (colony.rooms (Colony e)). visible e room"
      and others: "\<forall>room \<in> set (colony.rooms (Colony e)).
                     room.name room \<noteq> room.name roomA \<longrightarrow> \<not> ?cond room"
  proof -
    have "fst (scanRooms e worker (colony.rooms (Colony e)) ?st')
          = find ?cond (colony.rooms (Colony e))"
      using v agree_workerShouldRepaveRoom [OF vA] by (rule scanRooms_find)
    moreover have "\<not> ?cond room" if "room \<in> set (colony.rooms (Colony e))" for room
    proof (cases "room.name room = room.name roomA")
      case True
      have "visible e room"
        using v that by simp
      then have "room = roomA"
        using vA True by (rule visible_same_name)
      then show ?thesis
        using no by simp
    next
      case False
      then show ?thesis
        using others that by simp
    qed
    ultimately show ?thesis
      using scan by (simp add: find_None_iff)
  qed
  show ?thesis
    using part1 part2 by blast
qed
theorem workerShouldRepave_nothing_left_witness:
  "task ex_repairer = Some \<lparr>task.name = ''repair'', targetRef = ''r5'',
                             targetPos = ex_pos ''W2N1'' 7 7\<rparr>
   \<and> repairTaskName ex_env = ''repair''
   \<and> game.rooms (Game ex_env) ''W2N1'' = Some ex_far
   \<and> room.name ex_far = ''W2N1''
   \<and> visible ex_env ex_room \<and> visible ex_env ex_far
   \<and> zerg.name ex_repairer \<in> set (assignedWorkers ex_committed ex_far)
   \<and> fst (repairableRoads ex_env ex_far ex_committed) = []
   \<and> \<not> fst (workerShouldRepaveRoom ex_env ex_repairer ex_room ex_committed)
   \<and> fst (workerShouldRepave ex_env ex_repairer ex_committed) = None"
proof -
  let ?t = "\<lparr>task.name = ''repair'', targetRef = ''r5'', targetPos = ex_pos ''W2N1'' 7 7\<rparr>"
  have h1: "task ex_repairer = Some ?t"
    by (simp add: ex_repairer_def)
  have h2: "task.name ?t = repairTaskName ex_env"
    by (simp add: ex_env_def)
  have h3: "game.rooms (Game ex_env) (roomName (targetPos ?t)) = Some ex_far"
    by (simp add: ex_env_def ex_game_def ex_pos_def)
  have h4: "room.name ex_far = roomName (targetPos ?t)"
    by (simp add: ex_far_def ex_pos_def)
  have v1: "visible ex_env ex_room" and v2: "visible ex_env ex_far"
    by (simp_all add: visible_def ex_env_def ex_game_def ex_room_def ex_far_def)
  have h5: "\<forall>room \<in> set (colony.rooms (Colony ex_env)). visible ex_env room"
    using v1 v2 by (simp add: ex_env_def ex_colony_def)
  have h6: "zerg.name ex_repairer \<in> set (assignedWorkers ex_committed ex_far)"
    by (simp add: assignedWorkers_def ex_committed_def ex_far_def ex_repairer_def)
  have h7: "fst (repairableRoads ex_env ex_far ex_committed) = []"
    by (simp add: repairableRoads_def structures_def cached_structures_def ex_committed_def
        ex_far_def ex_road5_def ex_defs)
  have other: "\<not> fst (workerShouldRepaveRoom ex_env ex_repairer ex_room ex_committed)"
    by (simp add: workerShouldRepaveRoom_def assignedWorkers_def criticalRoads_def
        energyToRepave_def repairableRoads_def number_def cached_number_def structures_def
        cached_structures_def repairCost_def ref_def ROAD_CACHE_TIMEOUT_def
        ex_committed_def ex_repairer_def ex_defs)
  have h8: "\<forall>room \<in> set (colony.rooms (Colony ex_env)).
              room.name room \<noteq> room.name ex_far \<longrightarrow>
              \<not> (isRoomActive (Colony ex_env) (room.name room) \<and> isSafe room
                 \<and> fst (workerShouldRepaveRoom ex_env ex_repairer room ex_committed))"
    using other by (simp add: ex_env_def ex_colony_def)
  show ?thesis
    using workerShouldRepave_nothing_left [OF h1 h2 h3 h4 h6 h7] h1 h2 h3 h4 h5 v1 v2 h6 h7 h8 other
    by (simp add: ex_pos_def)
qed

end
